theory Spec2Isabelle
  imports Main "HOL-Library.AList"
begin

section \<open>gop: packaging and release script\<close>

text \<open>
  The definitions embed the functions of the later revision of \<^verbatim>\<open>gop.go\<close> (the one
  with the \<^verbatim>\<open>sync.WaitGroup\<close>, the \<^verbatim>\<open>files\<close> map and the rollback after a failed
  upload). The earlier revision has the same \<^verbatim>\<open>projectInfo\<close>, \<^verbatim>\<open>changes\<close>, name
  generation in \<^verbatim>\<open>collect\<close> and walk callback; its \<^verbatim>\<open>release\<close> has no rollback.

  Go strings are byte sequences and so is \<^typ>\<open>string\<close>. The functions of
  \<^verbatim>\<open>path/filepath\<close> are those for Unix (separator \<^verbatim>\<open>/\<close>); they work on bytes.
\<close>

subsection \<open>Package \<^verbatim>\<open>strings\<close>\<close>

text \<open>
  \<^verbatim>\<open>TrimSpace\<close>, \<^verbatim>\<open>Fields\<close>, \<^verbatim>\<open>ToLower\<close> and \<^verbatim>\<open>Title\<close> of Go decode UTF-8 and
  use the Unicode tables. On a string of ASCII bytes (all below \<^verbatim>\<open>0x80\<close>) they do
  what is written here: white space is the bytes tab, line feed, vertical tab, form
  feed, carriage return and space, and the letters are \<^verbatim>\<open>A\<close>..\<^verbatim>\<open>Z\<close> and
  \<^verbatim>\<open>a\<close>..\<^verbatim>\<open>z\<close>. The definitions stand for the Go functions on ASCII strings only:
  the theorem of a claim whose content depends on them is stated for ASCII strings,
  by the hypothesis \<open>isASCII\<close> or on literals.
\<close>

definition isASCII :: "string \<Rightarrow> bool" where
  "isASCII s \<longleftrightarrow> list_all (\<lambda>c. (of_char c :: nat) < 128) s"

definition isSpace :: "char \<Rightarrow> bool" where
  "isSpace c \<longleftrightarrow> c \<in> set [CHR 0x09, CHR 0x0A, CHR 0x0B, CHR 0x0C, CHR 0x0D, CHR '' '']"

definition TrimSpace :: "string \<Rightarrow> string" where
  "TrimSpace s = rev (dropWhile isSpace (rev (dropWhile isSpace s)))"

text \<open>\<^verbatim>\<open>strings.Fields\<close>: the maximal runs of non-space bytes, in order.\<close>

fun fieldsFrom :: "string \<Rightarrow> string \<Rightarrow> string list" where
  "fieldsFrom cur [] = (if cur = [] then [] else [rev cur])"
| "fieldsFrom cur (c # cs) =
     (if isSpace c then (if cur = [] then fieldsFrom [] cs else rev cur # fieldsFrom [] cs)
      else fieldsFrom (c # cur) cs)"

definition Fields :: "string \<Rightarrow> string list" where
  "Fields s = fieldsFrom [] s"

definition HasSuffix :: "string \<Rightarrow> string \<Rightarrow> bool" where
  "HasSuffix s suffix \<longleftrightarrow>
     length s \<ge> length suffix \<and> drop (length s - length suffix) s = suffix"

definition TrimSuffix :: "string \<Rightarrow> string \<Rightarrow> string" where
  "TrimSuffix s suffix =
     (if HasSuffix s suffix then take (length s - length suffix) s else s)"

text \<open>\<^verbatim>\<open>strings.Split\<close>; an empty separator explodes the string into its bytes.\<close>

function splitFrom :: "string \<Rightarrow> string \<Rightarrow> string \<Rightarrow> string list" where
  "splitFrom sep cur [] = [rev cur]"
| "splitFrom sep cur (c # cs) =
     (if sep \<noteq> [] \<and> take (length sep) (c # cs) = sep
      then rev cur # splitFrom sep [] (drop (length sep) (c # cs))
      else splitFrom sep (c # cur) cs)"
  by pat_completeness auto
termination
  by (relation "measure (\<lambda>(sep, cur, s). length s)") auto

definition Split :: "string \<Rightarrow> string \<Rightarrow> string list" where
  "Split s sep = (if sep = [] then map (\<lambda>c. [c]) s else splitFrom sep [] s)"

fun Join :: "string list \<Rightarrow> string \<Rightarrow> string" where
  "Join [] sep = []"
| "Join [x] sep = x"
| "Join (x # y # ys) sep = x @ sep @ Join (y # ys) sep"

definition lowerChar :: "char \<Rightarrow> char" where
  "lowerChar c =
     (case map_of (zip ''ABCDEFGHIJKLMNOPQRSTUVWXYZ'' ''abcdefghijklmnopqrstuvwxyz'') c of
        Some d \<Rightarrow> d
      | None \<Rightarrow> c)"

definition ToLower :: "string \<Rightarrow> string" where
  "ToLower s = map lowerChar s"

subsection \<open>Process state and outcomes\<close>

text \<open>The package-level variables.\<close>

record globals =
  version :: string
  releaseFlag :: bool
  changelog :: string
  packFlag :: bool
  prerelease :: bool
  projectName :: string
  modulePath :: string

text \<open>
  A function of the program either returns, or ends the process:
  \<^verbatim>\<open>logErr.Fatal\<close> (message, exit status 1), a run-time panic, or \<^verbatim>\<open>os.Exit\<close>.
\<close>

datatype abort = Fatal string | Panic string | Exit nat

text \<open>
  A file as \<^verbatim>\<open>os.Open\<close> and \<^verbatim>\<open>bufio.Scanner\<close> present it. It cannot be opened, or
  it is scanned: \<open>Opened ls None\<close> delivers the lines \<open>ls\<close> (line terminators removed)
  and reaches the end of the file. \<open>Opened ls (Some (msg, buffered))\<close> delivers the
  lines \<open>ls\<close>, then a read fails with \<open>msg\<close> (or a line is too long); the scanner
  records the error and still delivers the lines \<open>buffered\<close> that it holds. From the
  moment the error is recorded \<^verbatim>\<open>scanner.Err()\<close> returns it, also when the loop is
  left by \<^verbatim>\<open>break\<close> on one of the buffered lines.
\<close>

datatype textfile = NoFile | Opened "string list" "(string \<times> string list) option"

fun scanErr :: "(string \<times> string list) option \<Rightarrow> string option" where
  "scanErr None = None"
| "scanErr (Some (msg, buffered)) = Some msg"

fun bufferedLines :: "(string \<times> string list) option \<Rightarrow> string list" where
  "bufferedLines None = []"
| "bufferedLines (Some (msg, buffered)) = buffered"

text \<open>
  The lines in the order of the calls of \<^verbatim>\<open>Scan\<close>, each with the value
  \<^verbatim>\<open>scanner.Err()\<close> has once the line is delivered.
\<close>

definition scanned :: "string list \<Rightarrow> (string \<times> string list) option \<Rightarrow> (string \<times> string option) list" where
  "scanned ls sc =
     map (\<lambda>t. (t, None)) ls @ map (\<lambda>t. (t, scanErr sc)) (bufferedLines sc)"

definition logName :: string where
  "logName = ''CHANGELOG.md''"

subsection \<open>\<^verbatim>\<open>projectInfo\<close>\<close>

text \<open>
  The scan loop over the delivered lines; \<open>fin\<close> is the value of \<^verbatim>\<open>scanner.Err()\<close>
  when \<^verbatim>\<open>Scan\<close> returns false. The result carries the value \<^verbatim>\<open>scanner.Err()\<close> has
  after the loop, which is tested whether the loop ended or was left by \<^verbatim>\<open>break\<close>.
  \<^verbatim>\<open>fields[0]\<close> and \<^verbatim>\<open>fields[1]\<close> panic when the slice is too short.
\<close>

fun projectInfoLoop :: "(string \<times> string option) list \<Rightarrow> string option \<Rightarrow> globals \<Rightarrow> abort + (globals \<times> string option)" where
  "projectInfoLoop [] fin g = Inr (g, fin)"
| "projectInfoLoop ((t, e) # ts) fin g =
     (case Fields t of
        [] \<Rightarrow> Inl (Panic ''index out of range [0] with length 0'')
      | f0 # fs \<Rightarrow>
          if f0 = ''module'' then
            (case fs of
               [] \<Rightarrow> Inl (Panic ''index out of range [1] with length 1'')
             | f1 # _ \<Rightarrow>
                 Inr (g\<lparr>modulePath := f1, projectName := last (Split f1 ''/'')\<rparr>, e))
          else projectInfoLoop ts fin g)"

definition projectInfo :: "textfile \<Rightarrow> globals \<Rightarrow> abort + globals" where
  "projectInfo f g =
     (case f of
        NoFile \<Rightarrow> Inl (Fatal ''Please generate mod file, use: go mod init <path>'')
      | Opened ls sc \<Rightarrow>
          (case projectInfoLoop (scanned ls sc) (scanErr sc) g of
             Inl a \<Rightarrow> Inl a
           | Inr (g', err) \<Rightarrow>
               (case err of
                  Some msg \<Rightarrow> Inl (Fatal msg)
                | None \<Rightarrow> Inr g')))"

subsection \<open>\<^verbatim>\<open>changes\<close>\<close>

definition isHeading :: "string \<Rightarrow> bool" where
  "isHeading t \<longleftrightarrow> length t > 2 \<and> take 2 t = ''# ''"

text \<open>
  The scan loop with its three variables: the builder \<open>b\<close>, the flag \<open>in\<close> and the
  global \<open>version\<close>. A heading flips the flag; the loop breaks when that clears it.
  As in \<^verbatim>\<open>projectInfo\<close>, the result carries the value of \<^verbatim>\<open>scanner.Err()\<close> after
  the loop.
\<close>

fun changesLoop :: "(string \<times> string option) list \<Rightarrow> string option \<Rightarrow> string \<Rightarrow> bool \<Rightarrow> globals \<Rightarrow> string \<times> globals \<times> string option" where
  "changesLoop [] fin b inb g = (b, g, fin)"
| "changesLoop ((t, e) # ts) fin b inb g =
     (if isHeading t then
        (let inb' = \<not> inb in
         if \<not> inb' then (b, g, e)
         else changesLoop ts fin b inb' (g\<lparr>version := TrimSpace (drop 1 t)\<rparr>))
      else changesLoop ts fin (b @ t @ [CHR 0x0A]) inb g)"

definition changes :: "textfile \<Rightarrow> globals \<Rightarrow> abort + globals" where
  "changes f g =
     (case f of
        NoFile \<Rightarrow> Inl (Fatal (''Please add '' @ logName @ [CHR 0x0A]))
      | Opened ls sc \<Rightarrow>
          (case changesLoop (scanned ls sc) (scanErr sc) [] False g of
             (b, g', err) \<Rightarrow>
               (case err of
                  Some msg \<Rightarrow> Inl (Fatal msg)
                | None \<Rightarrow> Inr (g'\<lparr>changelog := TrimSuffix b [CHR 0x0A]\<rparr>))))"

subsection \<open>Package \<^verbatim>\<open>path/filepath\<close> (Unix)\<close>

text \<open>
  \<^verbatim>\<open>Clean\<close> works on the \<^verbatim>\<open>/\<close>-separated elements: empty elements and \<^verbatim>\<open>.\<close> are
  dropped; \<^verbatim>\<open>..\<close> removes the element before it, is dropped at the root, and is kept
  at the start of a relative path. The elements kept so far are held in reverse.
\<close>

fun cleanElems :: "bool \<Rightarrow> string list \<Rightarrow> string list \<Rightarrow> string list" where
  "cleanElems rooted out [] = rev out"
| "cleanElems rooted out (e # es) =
     (if e = [] \<or> e = ''.'' then cleanElems rooted out es
      else if e = ''..'' then
        (case out of
           [] \<Rightarrow> cleanElems rooted (if rooted then [] else [e]) es
         | o1 # os \<Rightarrow>
             if o1 = ''..'' then cleanElems rooted (e # out) es
             else cleanElems rooted os es)
      else cleanElems rooted (e # out) es)"

definition filepath_Clean :: "string \<Rightarrow> string" where
  "filepath_Clean path =
     (if path = [] then ''.''
      else
        let rooted = (hd path = CHR ''/'');
            out = cleanElems rooted [] (Split path ''/'')
        in if rooted then ''/'' @ Join out ''/''
           else if out = [] then ''.''
           else Join out ''/'')"

definition filepath_Join :: "string list \<Rightarrow> string" where
  "filepath_Join elem =
     (case dropWhile (\<lambda>e. e = []) elem of
        [] \<Rightarrow> []
      | e # es \<Rightarrow> filepath_Clean (Join (e # es) ''/''))"

definition filepath_Dir :: "string \<Rightarrow> string" where
  "filepath_Dir path = filepath_Clean (rev (dropWhile (\<lambda>c. c \<noteq> CHR ''/'') (rev path)))"

definition filepath_Base :: "string \<Rightarrow> string" where
  "filepath_Base path =
     (if path = [] then ''.''
      else
        let p = dropWhile (\<lambda>c. c = CHR ''/'') (rev path);
            q = rev (takeWhile (\<lambda>c. c \<noteq> CHR ''/'') p)
        in if q = [] then ''/'' else q)"

definition filepath_Ext :: "string \<Rightarrow> string" where
  "filepath_Ext path =
     (let r = takeWhile (\<lambda>c. c \<noteq> CHR ''/'') (rev path)
      in if CHR ''.'' \<in> set r then CHR ''.'' # rev (takeWhile (\<lambda>c. c \<noteq> CHR ''.'') r)
         else [])"

text \<open>
  A directory tree as \<^verbatim>\<open>filepath.Walk\<close> reads it with \<^verbatim>\<open>Lstat\<close> and
  \<^verbatim>\<open>ReadDir\<close>: every node has its name; a directory lists its entries in the order
  of the walk (by file name); anything that is not a directory is a \<open>File\<close>. All of the
  tree is readable, so the walk passes a nil error to its function.
\<close>

datatype fsnode = File string | Dir string "fsnode list"

fun infoName :: "fsnode \<Rightarrow> string" where
  "infoName (File n) = n"
| "infoName (Dir n es) = n"

fun infoIsDir :: "fsnode \<Rightarrow> bool" where
  "infoIsDir (File n) = False"
| "infoIsDir (Dir n es) = True"

datatype walkret = RetNil | SkipDir | RetErr string

type_synonym 's WalkFunc = "string \<Rightarrow> fsnode \<Rightarrow> string option \<Rightarrow> 's \<Rightarrow> 's \<times> walkret"

text \<open>
  \<^verbatim>\<open>filepath.walk\<close>: the function is called on the node, then on the entries of a
  directory. \<^verbatim>\<open>SkipDir\<close> returned for a directory skips it; any other non-nil result
  ends the walk of the enclosing directory.
\<close>

fun walk :: "'s WalkFunc \<Rightarrow> string \<Rightarrow> fsnode \<Rightarrow> 's \<Rightarrow> 's \<times> walkret"
  and walkEntries :: "'s WalkFunc \<Rightarrow> string \<Rightarrow> fsnode list \<Rightarrow> 's \<Rightarrow> 's \<times> walkret" where
  "walk fn path (File n) s = fn path (File n) None s"
| "walk fn path (Dir n es) s =
     (case fn path (Dir n es) None s of
        (s', RetNil) \<Rightarrow> walkEntries fn path es s'
      | (s', r) \<Rightarrow> (s', r))"
| "walkEntries fn path [] s = (s, RetNil)"
| "walkEntries fn path (e # es) s =
     (case walk fn (filepath_Join [path, infoName e]) e s of
        (s', RetNil) \<Rightarrow> walkEntries fn path es s'
      | (s', r) \<Rightarrow>
          if \<not> infoIsDir e \<or> r \<noteq> SkipDir then (s', r)
          else walkEntries fn path es s')"

definition filepath_Walk :: "string \<Rightarrow> fsnode \<Rightarrow> 's WalkFunc \<Rightarrow> 's \<Rightarrow> 's \<times> walkret" where
  "filepath_Walk root t fn s =
     (case walk fn root t s of
        (s', SkipDir) \<Rightarrow> (s', RetNil)
      | (s', r) \<Rightarrow> (s', r))"

subsection \<open>Collecting licenses\<close>

definition packLicDir :: string where
  "packLicDir = ''licenses-and-notices''"

definition noWalk :: "string set" where
  "noWalk = {''examples'', ''assets'', ''dist'', ''bin'', ''src'', ''.go''}"

definition isLicense :: "string \<Rightarrow> bool" where
  "isLicense fname =
     (let name = ToLower (TrimSuffix fname (filepath_Ext fname))
      in name = ''license'' \<or> name = ''copying'' \<or> name = ''notice'')"

text \<open>
  The function \<^verbatim>\<open>funcWalk\<close> hands to \<^verbatim>\<open>filepath.Walk\<close>, with the tests in the order
  of the source: a directory returns nil at once.
\<close>

definition walkFn :: "string \<Rightarrow> (string \<Rightarrow> string \<Rightarrow> fsnode \<Rightarrow> 's \<Rightarrow> 's) \<Rightarrow> 's WalkFunc" where
  "walkFn dir f path info err s =
     (if infoIsDir info then (s, RetNil)
      else
        (case err of
           Some e \<Rightarrow> (s, RetErr e)
         | None \<Rightarrow>
             let a = infoName info \<in> noWalk;
                 b = filepath_Ext (infoName info) \<in> noWalk
             in if a \<or> b then
                  (if infoIsDir info then (s, SkipDir) else (s, RetNil))
                else (f dir path info s, RetNil)))"

definition funcWalk :: "string \<Rightarrow> fsnode \<Rightarrow> (string \<Rightarrow> string \<Rightarrow> fsnode \<Rightarrow> 's \<Rightarrow> 's) \<Rightarrow> 's \<Rightarrow> abort + 's" where
  "funcWalk dir t f s =
     (case filepath_Walk dir t (walkFn dir f) s of
        (s', RetErr e) \<Rightarrow> Inl (Fatal e)
      | (s', _) \<Rightarrow> Inr s')"

text \<open>
  The map \<^verbatim>\<open>files\<close> (target path to source path) is an association list with one
  pair per key; an assignment replaces the value of a key that is present.
\<close>

type_synonym filesMap = "(string \<times> string) list"

definition collectFn :: "string \<Rightarrow> string \<Rightarrow> fsnode \<Rightarrow> filesMap \<Rightarrow> filesMap" where
  "collectFn root path info files =
     (let name = ToLower (infoName info)
      in if isLicense name then
           let pPath = filepath_Dir path;
               pName = filepath_Base pPath;
               gpPath = filepath_Dir pPath;
               gpName = filepath_Base gpPath;
               base = Join [gpName, pName, name] ''-''
           in AList.update (filepath_Join [packLicDir, base]) path files
         else files)"

text \<open>The vendor directory is \<open>None\<close> when \<^verbatim>\<open>os.Stat\<close> reports that it does not exist.\<close>

definition collect :: "filesMap \<Rightarrow> string \<Rightarrow> fsnode option \<Rightarrow> abort + filesMap" where
  "collect files vend vt =
     (case vt of
        None \<Rightarrow> Inr files
      | Some t \<Rightarrow> funcWalk vend t collectFn files)"

subsection \<open>\<^verbatim>\<open>pack\<close>\<close>

definition distDir :: string where
  "distDir = ''dist''"

definition binDir :: string where
  "binDir = ''bin''"

definition packReadmeName :: string where
  "packReadmeName = ''readme.txt''"

definition protocol :: string where
  "protocol = ''https://''"

text \<open>
  \<^verbatim>\<open>strings.Title\<close>: a letter is put in upper case when the byte before it is a
  separator (on ASCII: anything but a letter, a digit or an underscore), and at the
  start.
\<close>

definition upperChar :: "char \<Rightarrow> char" where
  "upperChar c =
     (case map_of (zip ''abcdefghijklmnopqrstuvwxyz'' ''ABCDEFGHIJKLMNOPQRSTUVWXYZ'') c of
        Some d \<Rightarrow> d
      | None \<Rightarrow> c)"

definition isSeparator :: "char \<Rightarrow> bool" where
  "isSeparator c \<longleftrightarrow>
     c \<notin> set ''abcdefghijklmnopqrstuvwxyzABCDEFGHIJKLMNOPQRSTUVWXYZ0123456789_''"

fun titleFrom :: "char \<Rightarrow> string \<Rightarrow> string" where
  "titleFrom prev [] = []"
| "titleFrom prev (c # cs) = (if isSeparator prev then upperChar c else c) # titleFrom c cs"

definition Title :: "string \<Rightarrow> string" where
  "Title s = titleFrom (CHR '' '') s"

definition readme :: "globals \<Rightarrow> string \<Rightarrow> string" where
  "readme g name =
     ''Thank you for downloading '' @ Title name @ [CHR 0x0A] @
     ''If you would like to contribute and/or download the source code, visit:'' @ [CHR 0x0A] @
     protocol @ modulePath g @ [CHR 0x0A]"

text \<open>
  What \<^verbatim>\<open>pack\<close> meets outside the program: the result of each directory listing
  (\<open>Inl\<close> an error), of \<^verbatim>\<open>os.Mkdir\<close>, of \<^verbatim>\<open>go mod vendor\<close>, the vendor tree, and for
  every path whether \<^verbatim>\<open>os.Create\<close>, the zip writer's \<^verbatim>\<open>Create\<close> and the copy of a
  file succeed (\<open>None\<close>) or fail with a message; \<open>readmeErr\<close> is the result of
  writing the readme text into an archive. The messages \<^verbatim>\<open>pack\<close> prints are left out.
\<close>

record packEnv =
  mkdirErr :: "string \<Rightarrow> string option"
  gopathBin :: "string + string list"
  binaries :: "string + string list"
  vendorErr :: "string option"
  vendorTree :: "fsnode option"
  rootDir :: "string + string list"
  createErr :: "string \<Rightarrow> string option"
  zipCreateErr :: "string \<Rightarrow> string option"
  readmeErr :: "string option"
  copyErr :: "string \<Rightarrow> string option"

definition mkdirOrTruncate :: "packEnv \<Rightarrow> string \<Rightarrow> abort + unit" where
  "mkdirOrTruncate env name =
     (case mkdirErr env name of Some e \<Rightarrow> Inl (Fatal e) | None \<Rightarrow> Inr ())"

fun exists :: "string list \<Rightarrow> string \<Rightarrow> bool" where
  "exists [] s = False"
| "exists (b # bin) s = (if b = s then True else exists bin s)"

text \<open>\<^verbatim>\<open>runGox\<close> off Windows; a failing run of gox is reported and ignored.\<close>

definition runGox :: "packEnv \<Rightarrow> string \<Rightarrow> abort + unit" where
  "runGox env dir =
     (case gopathBin env of
        Inl e \<Rightarrow> Inl (Fatal e)
      | Inr bin \<Rightarrow>
          if \<not> exists bin ''gox''
          then Inl (Fatal ''Please install gox before packaging, use: go get github.com/mitchellh/gox'')
          else Inr ())"

fun firstLicense :: "string list \<Rightarrow> string" where
  "firstLicense [] = []"
| "firstLicense (f # fs) = (if isLicense f then f else firstLicense fs)"

definition collectProjectLicense :: "packEnv \<Rightarrow> abort + string" where
  "collectProjectLicense env =
     (case rootDir env of
        Inl e \<Rightarrow> Inl (Fatal e)
      | Inr files \<Rightarrow> Inr (firstLicense files))"

text \<open>
  A zip archive as it is written: the path given to \<^verbatim>\<open>os.Create\<close> and the entries in
  the order of the calls of \<^verbatim>\<open>Create\<close> on the zip writer, each with the source of its
  bytes.
\<close>

datatype source = Text string | FromFile string

record archive =
  zpath :: string
  entries :: "(string \<times> source) list"

text \<open>The loop over \<^verbatim>\<open>files\<close> in a task; Go leaves the order of the keys open.\<close>

fun writeFiles :: "packEnv \<Rightarrow> filesMap \<Rightarrow> (string \<times> source) list \<Rightarrow> abort + (string \<times> source) list" where
  "writeFiles env [] es = Inr es"
| "writeFiles env ((to, from) # fs) es =
     (case zipCreateErr env to of
        Some e \<Rightarrow> Inl (Fatal e)
      | None \<Rightarrow>
          (case copyErr env from of
             Some e \<Rightarrow> Inl (Fatal e)
           | None \<Rightarrow> writeFiles env fs (es @ [(to, FromFile from)])))"

text \<open>The body of the goroutine started for the binary \<open>b\<close>.\<close>

definition packTask :: "packEnv \<Rightarrow> globals \<Rightarrow> string \<Rightarrow> filesMap \<Rightarrow> string \<Rightarrow> abort + archive" where
  "packTask env g rdme files b =
     (let ext = filepath_Ext b;
          base = TrimSuffix b ext;
          zp = filepath_Join [distDir, base @ ''.zip'']
      in case createErr env zp of
           Some e \<Rightarrow> Inl (Fatal e)
         | None \<Rightarrow>
             (case zipCreateErr env packReadmeName of
                Some e \<Rightarrow> Inl (Fatal e)
              | None \<Rightarrow>
             (case readmeErr env of
                Some e \<Rightarrow> Inl (Fatal e)
              | None \<Rightarrow>
             (case zipCreateErr env (projectName g @ ext) of
                Some e \<Rightarrow> Inl (Fatal e)
              | None \<Rightarrow>
             (case copyErr env (filepath_Join [binDir, b]) of
                Some e \<Rightarrow> Inl (Fatal e)
              | None \<Rightarrow>
             (case writeFiles env files
                     [(packReadmeName, Text rdme),
                      (projectName g @ ext, FromFile (filepath_Join [binDir, b]))] of
                Inl a \<Rightarrow> Inl a
              | Inr es \<Rightarrow> Inr \<lparr>zpath = zp, entries = es\<rparr>))))))"

text \<open>
  One task per binary, joined by the wait group. The tasks share nothing they write
  but the file system, so they are run here in the order of the list; a fatal error
  in a task ends the process.
\<close>

fun packTasks :: "packEnv \<Rightarrow> globals \<Rightarrow> string \<Rightarrow> filesMap \<Rightarrow> string list \<Rightarrow> abort + archive list" where
  "packTasks env g rdme files [] = Inr []"
| "packTasks env g rdme files (b # bs) =
     (case packTask env g rdme files b of
        Inl a \<Rightarrow> Inl a
      | Inr z \<Rightarrow>
          (case packTasks env g rdme files bs of
             Inl a \<Rightarrow> Inl a
           | Inr zs \<Rightarrow> Inr (z # zs)))"

text \<open>
  \<^verbatim>\<open>pack\<close> returns the map of license files it collected and the archives written.
\<close>

definition pack :: "packEnv \<Rightarrow> globals \<Rightarrow> abort + (filesMap \<times> archive list)" where
  "pack env g =
     (case mkdirOrTruncate env distDir of Inl a \<Rightarrow> Inl a | Inr _ \<Rightarrow>
      case mkdirOrTruncate env binDir of Inl a \<Rightarrow> Inl a | Inr _ \<Rightarrow>
      case runGox env binDir of Inl a \<Rightarrow> Inl a | Inr _ \<Rightarrow>
      case binaries env of Inl e \<Rightarrow> Inl (Fatal e) | Inr bins \<Rightarrow>
      case vendorErr env of Some e \<Rightarrow> Inl (Fatal e) | None \<Rightarrow>
      case collect [] ''vendor'' (vendorTree env) of Inl a \<Rightarrow> Inl a | Inr files \<Rightarrow>
      case collectProjectLicense env of Inl a \<Rightarrow> Inl a | Inr lic \<Rightarrow>
        let licName = projectName g @ ''-'' @ ToLower lic;
            files' = (if lic \<noteq> [] then AList.update (filepath_Join [packLicDir, licName]) lic files
                      else files);
            rdme = readme g (projectName g)
        in case packTasks env g rdme files' bins of
             Inl a \<Rightarrow> Inl a
           | Inr zs \<Rightarrow> Inr (files', zs))"

subsection \<open>\<^verbatim>\<open>release\<close>\<close>

text \<open>
  What \<^verbatim>\<open>release\<close> does to the outside, in order: text written to the two output
  streams, files created, written, closed and removed, and commands run.
\<close>

datatype event =
    Stdout string
  | Stderr string
  | CreateTemp string
  | WriteFile string string
  | CloseFile string
  | Remove string
  | Run string "string list"

text \<open>
  The answers of the outside: the listing of a directory, the name of the temporary
  file, the result of writing it, and the result of running a command (\<open>None\<close> when
  it succeeds).
\<close>

record releaseEnv =
  readDir :: "string \<Rightarrow> string + string list"
  tempFile :: "string + string"
  writeErr :: "string option"
  runCmd :: "string \<Rightarrow> string list \<Rightarrow> string option"

definition nl :: string where
  "nl = [CHR 0x0A]"

text \<open>The symbols printed before the messages, as UTF-8.\<close>

definition labelSym :: string where
  "labelSym = [CHR 0xF0, CHR 0x9F, CHR 0x8F, CHR 0xB7]"

definition mailboxSym :: string where
  "mailboxSym = [CHR 0xF0, CHR 0x9F, CHR 0x93, CHR 0xAC]"

definition exclamationSym :: string where
  "exclamationSym = [CHR 0xE2, CHR 0x9D, CHR 0x97]"

definition checkSym :: string where
  "checkSym = [CHR 0xE2, CHR 0x9C, CHR 0x85]"

text \<open>The cleanup after a failed upload; every path ends in \<^verbatim>\<open>os.Exit(0)\<close>.\<close>

definition rollback :: "releaseEnv \<Rightarrow> globals \<Rightarrow> event list \<times> abort option" where
  "rollback env g =
     (let ev1 = [Stderr (nl @ exclamationSym @ '' Could not upload assets: '' @ version g @ nl),
                 Stdout (nl @ ''Deleting release...'' @ nl),
                 Run ''gh'' [''release'', ''delete'', version g]]
      in case runCmd env ''gh'' [''release'', ''delete'', version g] of
           Some e \<Rightarrow>
             (ev1 @ [Stderr (nl @ exclamationSym @ '' Could not delete release: '' @ version g @ nl)],
              Some (Exit 0))
         | None \<Rightarrow>
             let ev2 = ev1 @ [Stdout (nl @ checkSym @ '' Release deleted'' @ nl),
                              Stdout (nl @ ''Deleting remote tag...'' @ nl),
                              Run ''git'' [''push'', ''--delete'', version g]]
             in case runCmd env ''git'' [''push'', ''--delete'', version g] of
                  Some e \<Rightarrow>
                    (ev2 @ [Stderr (nl @ exclamationSym @ '' Could not delete remote tag: '' @ version g @ nl)],
                     Some (Exit 0))
                | None \<Rightarrow>
                    (ev2 @ [Stdout (nl @ checkSym @ '' Remote tag deleted'' @ nl)], Some (Exit 0)))"

text \<open>
  The upload of the assets. On success the function returns and the deferred removal
  of the temporary file runs.
\<close>

definition upload :: "releaseEnv \<Rightarrow> globals \<Rightarrow> string \<Rightarrow> string list \<Rightarrow> string \<Rightarrow> event list \<times> abort option" where
  "upload env g dir assets tmp =
     (let args = [''release'', ''upload'', version g] @ map (\<lambda>a. filepath_Join [dir, a]) assets;
          ev = [Stdout (nl @ ''Uploading Assets~'' @ nl @ nl)] @
               map (\<lambda>a. Stdout (mailboxSym @ '' '' @ a @ nl)) assets @
               [Run ''gh'' args]
      in case runCmd env ''gh'' args of
           Some e \<Rightarrow> (case rollback env g of (ev', r) \<Rightarrow> (ev @ ev', r))
         | None \<Rightarrow> (ev @ [Remove tmp], None))"

text \<open>The part of \<^verbatim>\<open>release\<close> after the assets are listed.\<close>

definition createRelease :: "releaseEnv \<Rightarrow> globals \<Rightarrow> string \<Rightarrow> string list \<Rightarrow> event list \<times> abort option" where
  "createRelease env g dir assets =
     (let ev1 = [Stdout (nl @ ''Releasing:'' @ nl @ nl)]
      in case tempFile env of
           Inl e \<Rightarrow> (ev1, Some (Fatal e))
         | Inr tmp \<Rightarrow>
             (case writeErr env of
                Some e \<Rightarrow> (ev1 @ [CreateTemp tmp], Some (Fatal e))
              | None \<Rightarrow>
                  let args = [''release'', ''create'', version g, ''-t'', version g, ''-F'', tmp] @
                             (if prerelease g then [''-p''] else []);
                      ev2 = ev1 @ [CreateTemp tmp, WriteFile tmp (changelog g),
                                   Stdout (labelSym @ '' '' @ version g @ nl),
                                   Run ''gh'' args]
                  in case runCmd env ''gh'' args of
                       Some e \<Rightarrow> (ev2 @ [CloseFile tmp, Remove tmp], Some (Fatal e))
                     | None \<Rightarrow>
                         if packFlag g then
                           (case upload env g dir assets tmp of
                              (ev', r) \<Rightarrow> (ev2 @ [CloseFile tmp] @ ev', r))
                         else (ev2 @ [CloseFile tmp, Remove tmp], None)))"

definition release :: "releaseEnv \<Rightarrow> globals \<Rightarrow> string \<Rightarrow> event list \<times> abort option" where
  "release env g dir =
     (if packFlag g then
        (case readDir env dir of
           Inl e \<Rightarrow> ([], Some (Fatal e))
         | Inr assets \<Rightarrow>
             if length assets \<le> 0
             then ([Stderr (''No assets in '' @ dir @ '' directory'' @ nl)], Some (Exit 0))
             else createRelease env g dir assets)
      else createRelease env g dir [])"

text \<open>The commands among the events, in the order they were run.\<close>

fun commands :: "event list \<Rightarrow> (string \<times> string list) list" where
  "commands [] = []"
| "commands (Run p args # evs) = (p, args) # commands evs"
| "commands (e # evs) = commands evs"

subsection \<open>Names of directory entries\<close>

text \<open>
  The name of a directory entry is not empty, has no separator and is neither \<^verbatim>\<open>.\<close>
  nor \<^verbatim>\<open>..\<close>. A name is excluded from the walk when the name or its extension is
  in \<^verbatim>\<open>noWalk\<close>.
\<close>

definition plainName :: "string \<Rightarrow> bool" where
  "plainName n \<longleftrightarrow> n \<noteq> [] \<and> CHR ''/'' \<notin> set n \<and> n \<noteq> ''.'' \<and> n \<noteq> ''..''"

definition excluded :: "string \<Rightarrow> bool" where
  "excluded n \<longleftrightarrow> n \<in> noWalk \<or> filepath_Ext n \<in> noWalk"

text \<open>A tree in which every name is made of ASCII bytes.\<close>

fun asciiNames :: "fsnode \<Rightarrow> bool" where
  "asciiNames (File n) = isASCII n"
| "asciiNames (Dir n es) = (isASCII n \<and> (\<forall>e \<in> set es. asciiNames e))"

subsection \<open>Concrete states and environments\<close>

text \<open>
  The package-level variables when \<^verbatim>\<open>main\<close> has parsed the flags: the three flags as
  given, the strings still empty.
\<close>

definition startGlobals :: "bool \<Rightarrow> bool \<Rightarrow> bool \<Rightarrow> globals" where
  "startGlobals r p pre =
     \<lparr>version = [], releaseFlag = r, changelog = [], packFlag = p, prerelease = pre,
      projectName = [], modulePath = []\<rparr>"

text \<open>
  An environment of \<^verbatim>\<open>release\<close> with the given assets in every directory, in which
  exactly the listed commands fail.
\<close>

definition quietEnv :: "string list \<Rightarrow> (string \<times> string list) list \<Rightarrow> releaseEnv" where
  "quietEnv assets failing =
     \<lparr>readDir = (\<lambda>d. Inr assets), tempFile = Inr ''temp1.md'', writeErr = None,
      runCmd = (\<lambda>p args. if (p, args) \<in> set failing then Some ''exit status 1'' else None)\<rparr>"

text \<open>An environment of \<^verbatim>\<open>pack\<close> in which nothing fails.\<close>

definition okEnv :: "string list \<Rightarrow> fsnode option \<Rightarrow> string list \<Rightarrow> packEnv" where
  "okEnv bins vt root =
     \<lparr>mkdirErr = (\<lambda>n. None), gopathBin = Inr [''gox''], binaries = Inr bins,
      vendorErr = None, vendorTree = vt, rootDir = Inr root,
      createErr = (\<lambda>p. None), zipCreateErr = (\<lambda>n. None), readmeErr = None,
      copyErr = (\<lambda>p. None)\<rparr>"

section \<open>Properties\<close>

subsection \<open>The Metadata Reader\<close>

lemma projectInfoLoop_no_module:
  "\<forall>t \<in> set (map fst sl). Fields t \<noteq> [] \<and> hd (Fields t) \<noteq> ''module'' \<Longrightarrow>
   projectInfoLoop sl fin g = Inr (g, fin)"
  by (induction sl fin g rule: projectInfoLoop.induct) (auto split: list.splits)

lemma map_fst_scanned: "map fst (scanned ls sc) = ls @ bufferedLines sc"
  by (simp add: scanned_def comp_def)

text \<open>
  C4, as the code has it. A manifest of ASCII lines that opens, in which every line
  delivered by the scanner has a first token and no first token is \<^verbatim>\<open>module\<close>,
  makes \<^verbatim>\<open>projectInfo\<close> return normally with the module path and the project name as
  they were (empty at startup); the only fatal end is a read error of the scanner.
  There is no check for a missing module line.
\<close>

theorem projectInfo_no_module:
  assumes "\<forall>t \<in> set (ls @ bufferedLines sc).
             isASCII t \<and> Fields t \<noteq> [] \<and> hd (Fields t) \<noteq> ''module''"
  shows "projectInfo (Opened ls sc) g =
           (case scanErr sc of None \<Rightarrow> Inr g | Some msg \<Rightarrow> Inl (Fatal msg))"
proof -
  from assms have "\<forall>t \<in> set (map fst (scanned ls sc)). Fields t \<noteq> [] \<and> hd (Fields t) \<noteq> ''module''"
    by (simp only: map_fst_scanned) blast
  then have "projectInfoLoop (scanned ls sc) (scanErr sc) g = Inr (g, scanErr sc)"
    by (rule projectInfoLoop_no_module)
  then show ?thesis
    by (simp add: projectInfo_def)
qed

theorem projectInfo_no_module_witness:
  "isASCII ''// demo'' \<and> isASCII ''go 1.16''
   \<and> Fields ''// demo'' = [''//'', ''demo''] \<and> Fields ''go 1.16'' = [''go'', ''1.16'']
   \<and> projectInfo (Opened [''// demo'', ''go 1.16''] None) (startGlobals False True False) =
       Inr (startGlobals False True False)"
proof -
  have a: "isASCII ''// demo''" "isASCII ''go 1.16''"
    by (simp_all add: isASCII_def)
  have f: "Fields ''// demo'' = [''//'', ''demo'']" "Fields ''go 1.16'' = [''go'', ''1.16'']"
    by (simp_all add: Fields_def isSpace_def)
  from a f have h: "\<forall>t \<in> set ([''// demo'', ''go 1.16''] @ bufferedLines None).
      isASCII t \<and> Fields t \<noteq> [] \<and> hd (Fields t) \<noteq> ''module''"
    by simp
  have "projectInfo (Opened [''// demo'', ''go 1.16''] None) (startGlobals False True False) =
       Inr (startGlobals False True False)"
    using projectInfo_no_module [OF h, of "startGlobals False True False"] by simp
  with a f show ?thesis by (simp only: simp_thms)
qed

text \<open>
  C4 as stated fails: the manifest with the single line \<^verbatim>\<open>go 1.16\<close> has no module
  line, and \<^verbatim>\<open>projectInfo\<close> returns normally, both names empty.
\<close>

theorem projectInfo_no_module_counterexample:
  "projectInfo (Opened [''go 1.16''] None) (startGlobals False False False) =
     Inr (startGlobals False False False)
   \<and> modulePath (startGlobals False False False) = []
   \<and> projectName (startGlobals False False False) = []"
  by (simp add: projectInfo_def scanned_def Fields_def isSpace_def startGlobals_def)

text \<open>
  C10 fails on the code: a blank line before the module line has no fields, and
  \<^verbatim>\<open>fields[0]\<close> panics with an index out of range.
\<close>

theorem projectInfo_blank_line_panics:
  "projectInfo (Opened ['''', ''module github.com/x/y''] None) g =
     Inl (Panic ''index out of range [0] with length 0'')"
  by (simp add: projectInfo_def scanned_def Fields_def)

text \<open>
  The error of the scanner is tested after a \<^verbatim>\<open>break\<close> too: when the module line is
  one of the lines delivered after a failed read, the names are set and the process
  still ends in \<^verbatim>\<open>logErr.Fatal\<close>.
\<close>

lemma projectInfo_break_after_read_error:
  "projectInfo (Opened [] (Some (''read error'', [''module github.com/x/y'']))) g =
     Inl (Fatal ''read error'')"
  by (simp add: projectInfo_def scanned_def Fields_def isSpace_def Split_def)

subsection \<open>The Changelog Parser\<close>

lemma changesLoop_no_heading:
  "\<forall>t \<in> set pre. \<not> isHeading t \<Longrightarrow>
   changesLoop (map (\<lambda>t. (t, e)) pre @ ts) fin b inb g =
     changesLoop ts fin (b @ concat (map (\<lambda>t. t @ nl) pre)) inb g"
  by (induction pre arbitrary: b) (simp_all add: nl_def)

lemma scanned_Cons: "scanned (t # ls) sc = (t, None) # scanned ls sc"
  and scanned_append: "scanned (pre @ ls) sc = map (\<lambda>t. (t, None)) pre @ scanned ls sc"
  by (simp_all add: scanned_def)

lemma changesLoop_two_headings:
  assumes "\<forall>t \<in> set pre. \<not> isHeading t" "isHeading h1"
    "\<forall>t \<in> set mid. \<not> isHeading t" "isHeading h2"
  shows "changesLoop (scanned (pre @ h1 # mid @ h2 # rest) sc) fin b False g =
           (b @ concat (map (\<lambda>t. t @ nl) (pre @ mid)), g\<lparr>version := TrimSpace (drop 1 h1)\<rparr>, None)"
  using assms by (simp add: scanned_append scanned_Cons changesLoop_no_heading)

lemma concat_lines_Join:
  "ls \<noteq> [] \<Longrightarrow> concat (map (\<lambda>t. t @ nl) ls) = Join ls nl @ nl"
  by (induction ls nl rule: Join.induct) simp_all

lemma TrimSuffix_append: "TrimSuffix (s @ suf) suf = s"
  by (simp add: TrimSuffix_def HasSuffix_def)

lemma TrimSuffix_lines: "TrimSuffix (concat (map (\<lambda>t. t @ nl) ls)) nl = Join ls nl"
proof (cases "ls = []")
  case True
  then show ?thesis by (simp add: TrimSuffix_def HasSuffix_def nl_def)
next
  case False
  then have "concat (map (\<lambda>t. t @ nl) ls) = Join ls nl @ nl"
    by (rule concat_lines_Join)
  then show ?thesis by (simp only: TrimSuffix_append)
qed

text \<open>
  What \<^verbatim>\<open>changes\<close> extracts from a changelog with two headings: the lines before
  the second heading that are not headings, those before the first heading included.
\<close>

lemma changes_preamble_notes:
  assumes "\<forall>t \<in> set pre. \<not> isHeading t" "isHeading h1"
    "\<forall>t \<in> set mid. \<not> isHeading t" "isHeading h2"
  shows "changes (Opened (pre @ h1 # mid @ h2 # rest) sc) g =
           Inr (g\<lparr>version := TrimSpace (drop 1 h1), changelog := Join (pre @ mid) nl\<rparr>)"
  using changesLoop_two_headings [OF assms, of rest sc "scanErr sc" "[]" g]
    TrimSuffix_lines [of "pre @ mid"]
  by (simp add: changes_def nl_def)

text \<open>
  C1, as the code has it. A line counts as a heading when it begins with \<^verbatim>\<open># \<close>
  and has more than two bytes. For a changelog whose first line is a heading \<open>h1\<close>
  and whose next heading is \<open>h2\<close>, both delivered before any read error, the notes
  are exactly the lines strictly between the two, in their order, joined by newlines
  with no newline at the end; nothing at or after \<open>h2\<close> is included. The other
  variables but the version are left as they were.
\<close>

theorem changes_notes_between:
  assumes "isHeading h1" "\<forall>t \<in> set mid. \<not> isHeading t" "isHeading h2"
  shows "\<exists>v. changes (Opened (h1 # mid @ h2 # rest) sc) g =
           Inr (g\<lparr>version := v, changelog := Join mid nl\<rparr>)"
  using changes_preamble_notes [of "[]" h1 mid h2 rest sc g] assms by auto

theorem changes_notes_between_witness:
  "isHeading ''# 1.0.0'' \<and> \<not> isHeading ''fix bug'' \<and> \<not> isHeading ''add flag''
   \<and> isHeading ''# 0.9.0''
   \<and> (\<exists>v. changes (Opened ([''# 1.0.0'', ''fix bug'', ''add flag'', ''# 0.9.0'', ''old'']) None)
        (startGlobals False False False) =
      Inr ((startGlobals False False False)
           \<lparr>version := v, changelog := ''fix bug'' @ nl @ ''add flag''\<rparr>))"
proof -
  have h1: "isHeading ''# 1.0.0''" and h2: "isHeading ''# 0.9.0''"
    and n: "\<not> isHeading ''fix bug''" "\<not> isHeading ''add flag''"
    by (simp_all add: isHeading_def)
  from n have m: "\<forall>t \<in> set [''fix bug'', ''add flag'']. \<not> isHeading t"
    by simp
  have "\<exists>v. changes (Opened ([''# 1.0.0'', ''fix bug'', ''add flag'', ''# 0.9.0'', ''old'']) None)
        (startGlobals False False False) =
      Inr ((startGlobals False False False)
           \<lparr>version := v, changelog := ''fix bug'' @ nl @ ''add flag''\<rparr>)"
    using changes_notes_between [OF h1 m h2, of "[''old'']" None "startGlobals False False False"]
    by simp
  with h1 h2 n show ?thesis by (simp only: simp_thms)
qed

text \<open>
  C1 as stated fails. The first changelog has two headings and a line before the
  first one, and that line is part of the notes. In the second the line \<^verbatim>\<open># \<close> of two
  bytes, which begins with the marker, does not end the notes: it is taken as a line
  of them, and the notes run on to the next heading.
\<close>

theorem changes_notes_counterexample:
  "changes (Opened [''Changelog'', ''# 1.0.0'', ''fix bug'', ''# 0.9.0'', ''old''] None)
     (startGlobals False False False) =
   Inr ((startGlobals False False False)
        \<lparr>version := ''1.0.0'', changelog := ''Changelog'' @ nl @ ''fix bug''\<rparr>)
   \<and> changes (Opened [''# 1.0.0'', ''fix bug'', ''# '', ''more'', ''# 0.9.0'', ''old''] None)
     (startGlobals False False False) =
   Inr ((startGlobals False False False)
        \<lparr>version := ''1.0.0'', changelog := ''fix bug'' @ nl @ ''# '' @ nl @ ''more''\<rparr>)"
  by (simp add: changes_def scanned_def isHeading_def TrimSpace_def isSpace_def TrimSuffix_def
      HasSuffix_def nl_def)

text \<open>
  The error of the scanner is tested after the \<^verbatim>\<open>break\<close> too: when the second heading
  is one of the lines delivered after a failed read, the process ends in
  \<^verbatim>\<open>logErr.Fatal\<close>.
\<close>

lemma changes_break_after_read_error:
  assumes "\<forall>t \<in> set pre. \<not> isHeading t" "isHeading h1"
    "\<forall>t \<in> set mid. \<not> isHeading t" "\<forall>t \<in> set mid'. \<not> isHeading t" "isHeading h2"
  shows "changes (Opened (pre @ h1 # mid) (Some (msg, mid' @ h2 # rest))) g = Inl (Fatal msg)"
proof -
  have "changesLoop (scanned (pre @ h1 # mid) (Some (msg, mid' @ h2 # rest))) (Some msg) [] False g =
        changesLoop (map (\<lambda>t. (t, None)) mid @ map (\<lambda>t. (t, Some msg)) mid' @
                      (h2, Some msg) # map (\<lambda>t. (t, Some msg)) rest)
          (Some msg) (concat (map (\<lambda>t. t @ nl) pre)) True (g\<lparr>version := TrimSpace (drop 1 h1)\<rparr>)"
    using assms(1,2) by (simp add: scanned_def changesLoop_no_heading)
  also have "\<dots> = (concat (map (\<lambda>t. t @ nl) pre) @ concat (map (\<lambda>t. t @ nl) mid)
                      @ concat (map (\<lambda>t. t @ nl) mid'),
                    g\<lparr>version := TrimSpace (drop 1 h1)\<rparr>, Some msg)"
    using assms(3-5) by (simp add: changesLoop_no_heading)
  finally show ?thesis
    by (simp add: changes_def)
qed

lemma fieldsFrom_empty:
  "fieldsFrom cur s = [] \<longleftrightarrow> cur = [] \<and> (\<forall>c \<in> set s. isSpace c)"
  by (induction s arbitrary: cur) auto

lemma fieldsFrom_single:
  "fieldsFrom cur s = [v] \<Longrightarrow>
   \<exists>sp1 w sp2. s = sp1 @ w @ sp2 \<and> (\<forall>c \<in> set sp1. isSpace c) \<and> (\<forall>c \<in> set sp2. isSpace c)
     \<and> (\<forall>c \<in> set w. \<not> isSpace c) \<and> v = rev cur @ w \<and> (cur \<noteq> [] \<longrightarrow> sp1 = []) \<and> v \<noteq> []"
proof (induction s arbitrary: cur)
  case Nil
  then show ?case by (auto split: if_splits)
next
  case (Cons c cs)
  show ?case
  proof (cases "isSpace c")
    case sp: True
    show ?thesis
    proof (cases "cur = []")
      case True
      with sp Cons.prems have "fieldsFrom [] cs = [v]" by simp
      from Cons.IH [OF this] obtain sp1 w sp2 where
        h: "cs = sp1 @ w @ sp2" "\<forall>c \<in> set sp1. isSpace c" "\<forall>c \<in> set sp2. isSpace c"
          "\<forall>c \<in> set w. \<not> isSpace c" "v = w" "v \<noteq> []"
        by auto
      show ?thesis
        apply (rule exI [of _ "c # sp1"], rule exI [of _ w], rule exI [of _ sp2])
        using h sp True by simp
    next
      case False
      with sp Cons.prems have v: "v = rev cur" and e: "fieldsFrom [] cs = []" by simp_all
      from e have "\<forall>c \<in> set cs. isSpace c" by (simp add: fieldsFrom_empty)
      then show ?thesis
        apply -
        apply (rule exI [of _ "[]"], rule exI [of _ "[]"], rule exI [of _ "c # cs"])
        using v sp False by simp
    qed
  next
    case nsp: False
    with Cons.prems have "fieldsFrom (c # cur) cs = [v]" by simp
    from Cons.IH [OF this] obtain w sp2 where
      h: "cs = w @ sp2" "\<forall>c \<in> set sp2. isSpace c"
        "\<forall>c \<in> set w. \<not> isSpace c" "v = rev (c # cur) @ w"
      by auto
    show ?thesis
      apply (rule exI [of _ "[]"], rule exI [of _ "c # w"], rule exI [of _ sp2])
      using h nsp by simp
  qed
qed

lemma dropWhile_all: "\<forall>c \<in> set xs. P c \<Longrightarrow> dropWhile P (xs @ ys) = dropWhile P ys"
  by (induction xs) auto

lemma dropWhile_none: "\<forall>c \<in> set xs. \<not> P c \<Longrightarrow> dropWhile P xs = xs"
  by (cases xs) auto

lemma TrimSpace_padded:
  assumes "\<forall>c \<in> set sp1. isSpace c" "\<forall>c \<in> set sp2. isSpace c"
    "\<forall>c \<in> set w. \<not> isSpace c"
  shows "TrimSpace (sp1 @ w @ sp2) = w"
proof (cases "w = []")
  case True
  have "dropWhile isSpace (sp1 @ w @ sp2) = []"
    using assms(1,2) True by (auto simp: dropWhile_eq_Nil_conv)
  with True show ?thesis by (simp only: TrimSpace_def rev.simps dropWhile.simps)
next
  case False
  then have a: "dropWhile isSpace (w @ sp2) = w @ sp2"
    using assms(3) by (cases w) auto
  have b: "dropWhile isSpace (rev w) = rev w"
    using assms(3) dropWhile_none [of "rev w" isSpace] by simp
  show ?thesis
    using assms(1,2) by (simp add: TrimSpace_def dropWhile_all a b)
qed

lemma Fields_single_TrimSpace: "Fields s = [v] \<Longrightarrow> TrimSpace s = v"
proof -
  assume "Fields s = [v]"
  then have "fieldsFrom [] s = [v]" by (simp add: Fields_def)
  from fieldsFrom_single [OF this] obtain sp1 w sp2 where
    "s = sp1 @ w @ sp2" "\<forall>c \<in> set sp1. isSpace c" "\<forall>c \<in> set sp2. isSpace c"
    "\<forall>c \<in> set w. \<not> isSpace c" "v = w"
    by auto
  then show ?thesis by (simp add: TrimSpace_padded)
qed

lemma TrimSpace_leading: "isSpace c \<Longrightarrow> TrimSpace (c # s) = TrimSpace s"
  by (simp add: TrimSpace_def)

lemma changesLoop_inside_version:
  "fst (snd (changesLoop sl fin b True g)) = g"
  by (induction sl arbitrary: b) (auto simp: Let_def)

text \<open>
  C5, as the code has it. For a first heading line of ASCII bytes, the version is the
  rest of the line after the \<^verbatim>\<open>#\<close>, with the white space at both ends trimmed: all
  the tokens of the line, not the first one only. It is the first token when the line
  carries a single token.
\<close>

theorem changes_version_rest_of_line:
  assumes "\<forall>t \<in> set pre. \<not> isHeading t" and "isHeading h" and "isASCII h"
  shows "(\<exists>notes. changes (Opened (pre @ h # rest) None) g =
            Inr (g\<lparr>version := TrimSpace (drop 1 h), changelog := notes\<rparr>))
         \<and> (Fields (drop 2 h) = [v] \<longrightarrow> TrimSpace (drop 1 h) = v)"
proof
  let ?g = "g\<lparr>version := TrimSpace (drop 1 h)\<rparr>"
  let ?b = "concat (map (\<lambda>t. t @ nl) pre)"
  obtain b' g' e where
    l: "changesLoop (scanned rest None) None ?b True ?g = (b', g', e)"
    by (metis prod_cases3)
  with changesLoop_inside_version [of "scanned rest None" None ?b ?g]
  have g': "g' = ?g" by simp
  have "e = None"
  proof -
    have "\<And>sl b. snd (snd (changesLoop (map (\<lambda>t. (t, None)) sl) None b True ?g)) = None"
    proof -
      fix sl b show "snd (snd (changesLoop (map (\<lambda>t. (t, None)) sl) None b True ?g)) = None"
        by (induction sl arbitrary: b) (auto simp: Let_def)
    qed
    from this [of rest ?b] l show ?thesis
      by (simp add: scanned_def)
  qed
  with l g' have "changesLoop (scanned (pre @ h # rest) None) None [] False g = (b', ?g, None)"
    using assms(1,2) by (simp add: scanned_append scanned_Cons changesLoop_no_heading)
  then have "changes (Opened (pre @ h # rest) None) g =
            Inr (g\<lparr>version := TrimSpace (drop 1 h), changelog := TrimSuffix b' nl\<rparr>)"
    by (simp add: changes_def nl_def)
  then show "\<exists>notes. changes (Opened (pre @ h # rest) None) g =
            Inr (g\<lparr>version := TrimSpace (drop 1 h), changelog := notes\<rparr>)"
    by (rule exI)
next
  from assms(2) have "drop 1 h = CHR '' '' # drop 2 h"
    by (cases h; cases "tl h") (auto simp: isHeading_def)
  then have "TrimSpace (drop 1 h) = TrimSpace (drop 2 h)"
    by (simp add: TrimSpace_leading isSpace_def)
  then show "Fields (drop 2 h) = [v] \<longrightarrow> TrimSpace (drop 1 h) = v"
    by (simp add: Fields_single_TrimSpace)
qed

theorem changes_version_rest_of_line_witness:
  "isHeading ''# 1.0.0'' \<and> isASCII ''# 1.0.0'' \<and> Fields (drop 2 ''# 1.0.0'') = [''1.0.0'']
   \<and> (\<exists>notes. changes (Opened [''# 1.0.0'', ''fix bug''] None) (startGlobals False False False) =
         Inr ((startGlobals False False False)\<lparr>version := ''1.0.0'', changelog := notes\<rparr>))"
proof -
  have h: "isHeading ''# 1.0.0''"
    by (simp add: isHeading_def)
  have a: "isASCII ''# 1.0.0''"
    by (simp add: isASCII_def)
  have p: "\<forall>t \<in> set []. \<not> isHeading t"
    by simp
  have f: "Fields (drop 2 ''# 1.0.0'') = [''1.0.0'']"
    by (simp add: Fields_def isSpace_def)
  note r = changes_version_rest_of_line [OF p h a, of "[''fix bug'']"
        "startGlobals False False False" "''1.0.0''"]
  from r f have v: "TrimSpace (drop 1 ''# 1.0.0'') = ''1.0.0''"
    by (simp only: simp_thms)
  from r have "\<exists>notes. changes (Opened ([] @ ''# 1.0.0'' # [''fix bug'']) None)
        (startGlobals False False False) =
      Inr ((startGlobals False False False)
           \<lparr>version := TrimSpace (drop 1 ''# 1.0.0''), changelog := notes\<rparr>)"
    by (rule conjunct1)
  then have "\<exists>notes. changes (Opened [''# 1.0.0'', ''fix bug''] None)
        (startGlobals False False False) =
      Inr ((startGlobals False False False)\<lparr>version := ''1.0.0'', changelog := notes\<rparr>)"
    by (simp only: v append_Nil)
  with h a f show ?thesis by (simp only: simp_thms)
qed

text \<open>
  C5 as stated fails: the heading \<^verbatim>\<open># 1.0.0 beta\<close> has the tokens \<^verbatim>\<open>1.0.0\<close> and
  \<^verbatim>\<open>beta\<close>, and the version is \<^verbatim>\<open>1.0.0 beta\<close>.
\<close>

theorem changes_version_counterexample:
  "changes (Opened [''# 1.0.0 beta'', ''fix bug''] None) (startGlobals False False False) =
     Inr ((startGlobals False False False)\<lparr>version := ''1.0.0 beta'', changelog := ''fix bug''\<rparr>)
   \<and> Fields (drop 2 ''# 1.0.0 beta'') = [''1.0.0'', ''beta'']"
  by (simp add: changes_def scanned_def isHeading_def TrimSpace_def isSpace_def TrimSuffix_def
      HasSuffix_def Fields_def)

subsection \<open>The Release Publisher\<close>

lemma commands_append: "commands (xs @ ys) = commands xs @ commands ys"
  by (induction xs rule: commands.induct) simp_all

lemma commands_Stdout_map: "commands (map (\<lambda>a. Stdout (f a)) xs) = []"
  by (induction xs) simp_all

text \<open>
  C8. With the package flag set and an empty distribution directory,
  \<^verbatim>\<open>release\<close> writes the message \<^verbatim>\<open>No assets in <dir> directory\<close> to the error stream
  and exits with status 0; it does nothing else, so no release is created and no
  command is run.
\<close>

theorem release_no_assets:
  assumes "packFlag g" and "readDir env dir = Inr []"
  shows "release env g dir =
           ([Stderr (''No assets in '' @ dir @ '' directory'' @ nl)], Some (Exit 0))
         \<and> commands (fst (release env g dir)) = []"
  using assms by (simp add: release_def)

theorem release_no_assets_witness:
  "release (quietEnv [] []) (startGlobals True True False) ''dist'' =
     ([Stderr (''No assets in dist directory'' @ nl)], Some (Exit 0))
   \<and> commands (fst (release (quietEnv [] []) (startGlobals True True False) ''dist'')) = []"
  using release_no_assets [of "startGlobals True True False" "quietEnv [] []" "''dist''"]
  by (simp add: startGlobals_def quietEnv_def)

text \<open>
  C7. When the upload of the assets fails, the commands \<^verbatim>\<open>release\<close> has run are the
  creation of the release, the upload, then \<^verbatim>\<open>gh release delete\<close>, and after it
  \<^verbatim>\<open>git push --delete\<close> exactly when the deletion of the release succeeded; the
  process then exits with status 0.
\<close>

theorem release_rollback_order:
  assumes "packFlag g"
    and "readDir env dir = Inr assets" and "assets \<noteq> []"
    and "tempFile env = Inr tmp" and "writeErr env = None"
    and "cargs = [''release'', ''create'', version g, ''-t'', version g, ''-F'', tmp] @
                 (if prerelease g then [''-p''] else [])"
    and "runCmd env ''gh'' cargs = None"
    and "uargs = [''release'', ''upload'', version g] @ map (\<lambda>a. filepath_Join [dir, a]) assets"
    and "runCmd env ''gh'' uargs = Some e"
  shows "commands (fst (release env g dir)) =
           [(''gh'', cargs), (''gh'', uargs), (''gh'', [''release'', ''delete'', version g])] @
           (if runCmd env ''gh'' [''release'', ''delete'', version g] = None
            then [(''git'', [''push'', ''--delete'', version g])] else [])
         \<and> snd (release env g dir) = Some (Exit 0)"
  using assms
  by (simp add: release_def createRelease_def upload_def rollback_def Let_def
      commands_append commands_Stdout_map split: option.splits)


theorem release_rollback_order_witness:
  "commands (fst (release
      (quietEnv [''a.zip'']
         [(''gh'', [''release'', ''upload'', ''v1'', ''dist/a.zip'']),
          (''gh'', [''release'', ''delete'', ''v1''])])
      ((startGlobals True True False)\<lparr>version := ''v1''\<rparr>) ''dist'')) =
     [(''gh'', [''release'', ''create'', ''v1'', ''-t'', ''v1'', ''-F'', ''temp1.md'']),
      (''gh'', [''release'', ''upload'', ''v1'', ''dist/a.zip'']),
      (''gh'', [''release'', ''delete'', ''v1''])]
   \<and> snd (release
      (quietEnv [''a.zip'']
         [(''gh'', [''release'', ''upload'', ''v1'', ''dist/a.zip'']),
          (''gh'', [''release'', ''delete'', ''v1''])])
      ((startGlobals True True False)\<lparr>version := ''v1''\<rparr>) ''dist'') = Some (Exit 0)"
proof -
  let ?g = "(startGlobals True True False)\<lparr>version := ''v1''\<rparr>"
  let ?up = "[''release'', ''upload'', ''v1'', ''dist/a.zip'']"
  let ?del = "[''release'', ''delete'', ''v1'']"
  let ?cr = "[''release'', ''create'', ''v1'', ''-t'', ''v1'', ''-F'', ''temp1.md'']"
  let ?env = "quietEnv [''a.zip''] [(''gh'', ?up), (''gh'', ?del)]"
  have j: "filepath_Join [''dist'', ''a.zip''] = ''dist/a.zip''"
    by (simp add: filepath_Join_def filepath_Clean_def Split_def)
  have p1: "packFlag ?g" and v: "version ?g = ''v1''" and pr: "\<not> prerelease ?g"
    by (simp_all add: startGlobals_def)
  have p2: "readDir ?env ''dist'' = Inr [''a.zip'']" and p3: "[''a.zip''] \<noteq> []"
    and p4: "tempFile ?env = Inr ''temp1.md''" and p5: "writeErr ?env = None"
    by (simp_all add: quietEnv_def)
  have p6: "?cr = [''release'', ''create'', version ?g, ''-t'', version ?g, ''-F'', ''temp1.md''] @
                 (if prerelease ?g then [''-p''] else [])"
    by (simp add: v pr)
  have p7: "runCmd ?env ''gh'' ?cr = None"
    by (simp add: quietEnv_def)
  have p8: "?up = [''release'', ''upload'', version ?g] @ map (\<lambda>a. filepath_Join [''dist'', a]) [''a.zip'']"
    by (simp add: v j)
  have p9: "runCmd ?env ''gh'' ?up = Some ''exit status 1''"
    by (simp add: quietEnv_def)
  have d: "runCmd ?env ''gh'' ?del \<noteq> None"
    by (simp add: quietEnv_def)
  note r = release_rollback_order [OF p1 p2 p3 p4 p5 p6 p7 p8 p9]
  from r d show ?thesis by (simp only: v if_False append_Nil2 simp_thms)
qed

subsection \<open>The License Collector\<close>

lemmas license_eval =
  collect_def funcWalk_def filepath_Walk_def walkFn_def collectFn_def isLicense_def
  ToLower_def lowerChar_def filepath_Ext_def filepath_Dir_def filepath_Base_def
  filepath_Join_def filepath_Clean_def Split_def TrimSuffix_def HasSuffix_def noWalk_def
  packLicDir_def Let_def

text \<open>
  What the walk function does by its tests: a file whose name or extension is in the
  exclusion set is passed over, and every directory is passed over without a look at
  its name, so the walk goes on into it.
\<close>

lemma walkFn_excluded_file:
  "excluded n \<Longrightarrow> walkFn dir f path (File n) None s = (s, RetNil)"
  by (simp add: walkFn_def excluded_def)

lemma walkFn_directory:
  "walkFn dir f path (Dir n es) err s = (s, RetNil)"
  by (simp add: walkFn_def)

text \<open>
  C3 fails on the code: the walk function returns nil for every directory before it
  looks at the exclusion set, so the walk enters a directory named \<^verbatim>\<open>src\<close> and the
  license file in it is recorded.
\<close>

theorem collect_enters_excluded_dir:
  "collect [] ''vendor'' (Some (Dir ''vendor'' [Dir ''a'' [Dir ''src'' [File ''LICENSE'']]])) =
     Inr [(''licenses-and-notices/a-src-license'', ''vendor/a/src/LICENSE'')]"
  by (simp add: license_eval)

text \<open>
  C2 as stated fails: for \<^verbatim>\<open>vendor/a/b/LICENSE\<close> the name recorded is
  \<^verbatim>\<open>a-b-license\<close>, the grandparent first, not \<^verbatim>\<open>b-a-license\<close>.
\<close>

theorem collect_target_counterexample:
  "collect [] ''vendor'' (Some (Dir ''vendor'' [Dir ''a'' [Dir ''b'' [File ''LICENSE'']]])) =
     Inr [(''licenses-and-notices/a-b-license'', ''vendor/a/b/LICENSE'')]
   \<and> ''licenses-and-notices/a-b-license'' \<noteq> ''licenses-and-notices/b-a-license''"
  by (simp add: license_eval)

lemma splitFrom_no_sep:
  "CHR ''/'' \<notin> set n \<Longrightarrow> splitFrom ''/'' cur n = [rev cur @ n]"
  by (induction n arbitrary: cur) auto

lemma splitFrom_to_sep:
  "CHR ''/'' \<notin> set n \<Longrightarrow>
   splitFrom ''/'' cur (n @ CHR ''/'' # rest) = (rev cur @ n) # splitFrom ''/'' [] rest"
  by (induction n arbitrary: cur) auto

lemma Join_snoc: "es \<noteq> [] \<Longrightarrow> Join (es @ [n]) sep = Join es sep @ sep @ n"
  by (induction es sep rule: Join.induct) simp_all

lemma Split_Join:
  "es \<noteq> [] \<Longrightarrow> \<forall>e \<in> set es. CHR ''/'' \<notin> set e \<Longrightarrow> Split (Join es ''/'') ''/'' = es"
proof (induction es "''/''" rule: Join.induct)
  case 1
  then show ?case by simp
next
  case (2 x)
  then show ?case by (simp add: Split_def splitFrom_no_sep)
next
  case (3 x y ys)
  then have "splitFrom ''/'' [] (Join (y # ys) ''/'') = y # ys"
    by (simp add: Split_def)
  with 3 show ?case
    using splitFrom_to_sep [of x "[]" "Join (y # ys) ''/''"]
    by (simp add: Split_def)
qed

lemma Split_Join_slash:
  assumes "es \<noteq> []" "\<forall>e \<in> set es. CHR ''/'' \<notin> set e"
  shows "Split (Join es ''/'' @ ''/'') ''/'' = es @ [[]]"
proof -
  have "Join es ''/'' @ ''/'' = Join (es @ [[]]) ''/''"
    using assms(1) by (simp add: Join_snoc)
  then show ?thesis
    using Split_Join [of "es @ [[]]"] assms by simp
qed

lemma cleanElems_plain:
  "\<forall>e \<in> set es. plainName e \<Longrightarrow>
   cleanElems r out (es @ es') = cleanElems r (rev es @ out) es'"
  by (induction es arbitrary: out) (simp_all add: plainName_def)

lemma Join_nonempty:
  "es \<noteq> [] \<Longrightarrow> hd es \<noteq> [] \<Longrightarrow> Join es sep \<noteq> [] \<and> hd (Join es sep) = hd (hd es)"
  by (induction es sep rule: Join.induct) simp_all

lemma Clean_Join:
  assumes "es \<noteq> []" "\<forall>e \<in> set es. plainName e"
  shows "filepath_Clean (Join es ''/'') = Join es ''/''"
proof -
  from assms have h: "hd es \<noteq> []" "CHR ''/'' \<notin> set (hd es)"
    by (cases es; simp add: plainName_def)+
  then have "hd (hd es) \<noteq> CHR ''/''"
    by (cases "hd es") auto
  with Join_nonempty [OF assms(1) h(1), of "''/''"]
  have n: "Join es ''/'' \<noteq> []" "hd (Join es ''/'') \<noteq> CHR ''/''"
    by simp_all
  have s: "Split (Join es ''/'') ''/'' = es"
    using assms by (simp add: Split_Join plainName_def)
  have c: "cleanElems False [] es = es"
    using cleanElems_plain [OF assms(2), of False "[]" "[]"] by simp
  show ?thesis
    using n s c assms(1) by (simp add: filepath_Clean_def)
qed

lemma Clean_Join_slash:
  assumes "es \<noteq> []" "\<forall>e \<in> set es. plainName e"
  shows "filepath_Clean (Join es ''/'' @ ''/'') = Join es ''/''"
proof -
  from assms have h: "hd es \<noteq> []" "CHR ''/'' \<notin> set (hd es)"
    by (cases es; simp add: plainName_def)+
  then have "hd (hd es) \<noteq> CHR ''/''"
    by (cases "hd es") auto
  with Join_nonempty [OF assms(1) h(1), of "''/''"]
  have n: "Join es ''/'' \<noteq> []" "hd (Join es ''/'') \<noteq> CHR ''/''"
    by simp_all
  have s: "Split (Join es ''/'' @ ''/'') ''/'' = es @ [[]]"
    using assms by (simp add: Split_Join_slash plainName_def)
  have c: "cleanElems False [] (es @ [[]]) = es"
    using cleanElems_plain [OF assms(2), of False "[]" "[[]]"] by simp
  show ?thesis
    using n s c assms(1) by (simp add: filepath_Clean_def)
qed

lemma filepath_Join_entry:
  assumes "es \<noteq> []" "\<forall>e \<in> set es. plainName e" "plainName n"
  shows "filepath_Join [Join es ''/'', n] = Join (es @ [n]) ''/''"
proof -
  from assms have h: "hd es \<noteq> []"
    by (cases es; simp add: plainName_def)
  have n: "Join es ''/'' \<noteq> []"
    using Join_nonempty [OF assms(1) h] by simp
  have "filepath_Clean (Join (es @ [n]) ''/'') = Join (es @ [n]) ''/''"
    using assms by (intro Clean_Join) auto
  then show ?thesis
    using n assms(1) by (simp add: filepath_Join_def Join_snoc)
qed

lemma filepath_Dir_entry:
  assumes "es \<noteq> []" "\<forall>e \<in> set es. plainName e" "CHR ''/'' \<notin> set n"
  shows "filepath_Dir (Join (es @ [n]) ''/'') = Join es ''/''"
proof -
  have "dropWhile (\<lambda>c. c \<noteq> CHR ''/'') (rev n @ CHR ''/'' # rev (Join es ''/'')) =
        CHR ''/'' # rev (Join es ''/'')"
    using assms(3) by (auto simp: dropWhile_append3)
  then show ?thesis
    using assms by (simp add: filepath_Dir_def Join_snoc Clean_Join_slash)
qed

lemma filepath_Base_entry:
  assumes "es \<noteq> []" "n \<noteq> []" "CHR ''/'' \<notin> set n"
  shows "filepath_Base (Join (es @ [n]) ''/'') = n"
proof -
  have l: "last n \<noteq> CHR ''/''"
    using assms(2,3) by (metis last_in_set)
  have r: "rev n \<noteq> []" "hd (rev n) \<noteq> CHR ''/''"
    using assms(2) l by (simp_all add: hd_rev)
  then have d: "dropWhile (\<lambda>c. c = CHR ''/'') (rev n @ CHR ''/'' # rev (Join es ''/'')) =
        rev n @ CHR ''/'' # rev (Join es ''/'')"
    by (cases "rev n") auto
  have t: "takeWhile (\<lambda>c. c \<noteq> CHR ''/'') (rev n @ CHR ''/'' # rev (Join es ''/'')) = rev n"
    using assms(3) by (auto simp: takeWhile_tail)
  show ?thesis
    using assms(1,2) d t by (simp add: filepath_Base_def Join_snoc Let_def)
qed

lemma lowerChar_slash: "lowerChar c = CHR ''/'' \<longleftrightarrow> c = CHR ''/''"
  by (simp add: lowerChar_def)


lemma plainName_vendor: "plainName ''vendor''" and plainName_packLicDir: "plainName packLicDir"
  by (simp_all add: plainName_def packLicDir_def)

lemma plainName_target:
  assumes "plainName a" "plainName b" "CHR ''/'' \<notin> set f"
  shows "plainName (a @ ''-'' @ b @ ''-'' @ ToLower f)"
proof -
  have "a \<noteq> []" "b \<noteq> []"
    using assms(1,2) by (simp_all add: plainName_def)
  then have len: "length (a @ ''-'' @ b @ ''-'' @ ToLower f) > 2"
    by (cases a; cases b) simp_all
  have "length ''.'' = 1" and "length ''..'' = 2"
    by simp_all
  with len have "a @ ''-'' @ b @ ''-'' @ ToLower f \<noteq> ''.''" "a @ ''-'' @ b @ ''-'' @ ToLower f \<noteq> ''..''"
    by (metis less_numeral_extra(4) one_less_numeral_iff semiring_norm(76) not_less_iff_gr_or_eq)+
  moreover have "CHR ''/'' \<notin> set (ToLower f)"
  proof
    assume "CHR ''/'' \<in> set (ToLower f)"
    then obtain c where "c \<in> set f" and "lowerChar c = CHR ''/''"
      by (auto simp: ToLower_def)
    with assms(3) show False
      by (simp add: lowerChar_slash)
  qed
  ultimately show ?thesis
    using assms(1,2) by (simp add: plainName_def)
qed

text \<open>
  With a readable tree the walk function never returns an error or \<^verbatim>\<open>SkipDir\<close>, so
  the walk visits every node; and a key once recorded stays in the map.
\<close>

lemma walkFn_nil: "snd (walkFn d f p t None s) = RetNil"
  by (simp add: walkFn_def Let_def)

lemma walk_walkFn_nil:
  "snd (walk (walkFn d f) p t s) = RetNil"
  "snd (walkEntries (walkFn d f) p es s) = RetNil"
proof (induction "walkFn d f" p t s and "walkFn d f" p es s rule: walk_walkEntries.induct)
  case (1 path n s)
  show ?case by (simp add: walkFn_nil)
next
  case (2 path n es s)
  have "walkFn d f path (Dir n es) None s = (s, RetNil)"
    by (simp add: walkFn_def)
  with 2 show ?case by simp
next
  case (3 path s)
  show ?case by simp
next
  case (4 path e es s)
  then show ?case
    by (cases "walk (walkFn d f) (filepath_Join [path, infoName e]) e s")
      (auto split: walkret.splits)
qed

lemma walk_Dir:
  "walk (walkFn d f) p (Dir n es) s = walkEntries (walkFn d f) p es s"
  by (simp add: walkFn_def)

lemma walkEntries_Cons:
  "walkEntries (walkFn d f) p (e # es) s =
     walkEntries (walkFn d f) p es (fst (walk (walkFn d f) (filepath_Join [p, infoName e]) e s))"
proof -
  obtain s' r where w: "walk (walkFn d f) (filepath_Join [p, infoName e]) e s = (s', r)"
    by (cases "walk (walkFn d f) (filepath_Join [p, infoName e]) e s")
  with walk_walkFn_nil(1) [of d f "filepath_Join [p, infoName e]" e s] have "r = RetNil"
    by simp
  with w show ?thesis by simp
qed

lemma collectFn_keys: "fst ` set s \<subseteq> fst ` set (collectFn r p i s)"
  by (auto simp: collectFn_def Let_def dom_update)

lemma walkFn_keys: "fst ` set s \<subseteq> fst ` set (fst (walkFn d collectFn p t e s))"
  using collectFn_keys [of s d p t]
  by (auto simp: walkFn_def Let_def split: option.splits)

lemma walk_keys:
  "fst ` set s \<subseteq> fst ` set (fst (walk (walkFn d collectFn) p t s))"
  "fst ` set s \<subseteq> fst ` set (fst (walkEntries (walkFn d collectFn) p es s))"
proof (induction "walkFn d collectFn" p t s and "walkFn d collectFn" p es s
    rule: walk_walkEntries.induct)
  case (1 path n s)
  show ?case using walkFn_keys [of s d path "File n" None] by simp
next
  case (2 path n es s)
  have "walkFn d collectFn path (Dir n es) None s = (s, RetNil)"
    by (simp add: walkFn_def)
  with 2 show ?case by (auto simp: walk_Dir)
next
  case (3 path s)
  show ?case by simp
next
  case (4 path e es s)
  let ?s' = "fst (walk (walkFn d collectFn) (filepath_Join [path, infoName e]) e s)"
  have r: "snd (walk (walkFn d collectFn) (filepath_Join [path, infoName e]) e s) = RetNil"
    by (rule walk_walkFn_nil)
  have a: "fst ` set s \<subseteq> fst ` set ?s'"
    using 4(1) .
  obtain s' where w: "walk (walkFn d collectFn) (filepath_Join [path, infoName e]) e s = (s', RetNil)"
    using r by (cases "walk (walkFn d collectFn) (filepath_Join [path, infoName e]) e s") simp
  have b: "fst ` set ?s' \<subseteq> fst ` set (fst (walkEntries (walkFn d collectFn) path es ?s'))"
    using 4(2) w by auto
  show ?case
    unfolding walkEntries_Cons using a b by blast
qed

text \<open>A key that the walk of an entry records is a key after the walk of the directory.\<close>

lemma walkEntries_reaches:
  assumes "e \<in> set es"
    and "\<And>s. k \<in> fst ` set (fst (walk (walkFn d collectFn) (filepath_Join [p, infoName e]) e s))"
  shows "k \<in> fst ` set (fst (walkEntries (walkFn d collectFn) p es s))"
  using assms(1)
proof (induction es arbitrary: s)
  case Nil
  then show ?case by simp
next
  case (Cons e' es)
  let ?s' = "fst (walk (walkFn d collectFn) (filepath_Join [p, infoName e']) e' s)"
  show ?case
  proof (cases "e = e'")
    case True
    with assms(2) [of s] have "k \<in> fst ` set ?s'" by simp
    with walk_keys(2) [of ?s' d p es] show ?thesis
      unfolding walkEntries_Cons by blast
  next
    case False
    with Cons.prems have "e \<in> set es" by simp
    from Cons.IH [OF this, of ?s'] show ?thesis
      unfolding walkEntries_Cons .
  qed
qed

lemma collect_walk:
  "collect files vend (Some t) = Inr (fst (walk (walkFn vend collectFn) vend t files))"
proof -
  obtain s' r where w: "walk (walkFn vend collectFn) vend t files = (s', r)"
    by (cases "walk (walkFn vend collectFn) vend t files")
  with walk_walkFn_nil(1) [of vend collectFn vend t files] have "r = RetNil"
    by simp
  with w show ?thesis
    by (simp add: collect_def funcWalk_def filepath_Walk_def)
qed

text \<open>
  The paths and names the walk computes on the way to \<^verbatim>\<open>vendor/a/b/f\<close>, and the key
  recorded for the file.
\<close>

lemma license_file_key:
  assumes "plainName a" "plainName b" "plainName f"
    and "\<not> excluded f" and "isLicense (ToLower f)"
  shows "filepath_Join [''vendor'', a] = ''vendor/'' @ a"
    and "filepath_Join [''vendor/'' @ a, b] = ''vendor/'' @ a @ ''/'' @ b"
    and "filepath_Join [''vendor/'' @ a @ ''/'' @ b, f] = ''vendor/'' @ a @ ''/'' @ b @ ''/'' @ f"
    and "fst (walkFn ''vendor'' collectFn (''vendor/'' @ a @ ''/'' @ b @ ''/'' @ f) (File f) None s) =
           AList.update (''licenses-and-notices/'' @ a @ ''-'' @ b @ ''-'' @ ToLower f)
             (''vendor/'' @ a @ ''/'' @ b @ ''/'' @ f) s"
proof -
  let ?p1 = "''vendor/'' @ a"
  let ?p2 = "''vendor/'' @ a @ ''/'' @ b"
  let ?p3 = "''vendor/'' @ a @ ''/'' @ b @ ''/'' @ f"
  have sl: "CHR ''/'' \<notin> set f" "f \<noteq> []" "b \<noteq> []" "CHR ''/'' \<notin> set b" "a \<noteq> []" "CHR ''/'' \<notin> set a"
    using assms(1-3) by (simp_all add: plainName_def)
  show j1: "filepath_Join [''vendor'', a] = ?p1"
    using filepath_Join_entry [of "[''vendor'']" a] assms(1) plainName_vendor by simp
  show j2: "filepath_Join [?p1, b] = ?p2"
    using filepath_Join_entry [of "[''vendor'', a]" b] assms(1,2) plainName_vendor by simp
  show j3: "filepath_Join [?p2, f] = ?p3"
    using filepath_Join_entry [of "[''vendor'', a, b]" f] assms(1-3) plainName_vendor by simp
  have d3: "filepath_Dir ?p3 = ?p2"
    using filepath_Dir_entry [of "[''vendor'', a, b]" f] assms(1,2) sl plainName_vendor by simp
  have d2: "filepath_Dir ?p2 = ?p1"
    using filepath_Dir_entry [of "[''vendor'', a]" b] assms(1) sl plainName_vendor by simp
  have b2: "filepath_Base ?p2 = b"
    using filepath_Base_entry [of "[''vendor'', a]" b] sl by simp
  have b1: "filepath_Base ?p1 = a"
    using filepath_Base_entry [of "[''vendor'']" a] sl by simp
  have k: "filepath_Join [packLicDir, a @ ''-'' @ b @ ''-'' @ ToLower f] =
           ''licenses-and-notices/'' @ a @ ''-'' @ b @ ''-'' @ ToLower f"
    using filepath_Join_entry [of "[packLicDir]" "a @ ''-'' @ b @ ''-'' @ ToLower f"]
      plainName_target [OF assms(1,2) sl(1)] plainName_packLicDir
    by (simp add: packLicDir_def)
  show "fst (walkFn ''vendor'' collectFn ?p3 (File f) None s) =
           AList.update (''licenses-and-notices/'' @ a @ ''-'' @ b @ ''-'' @ ToLower f) ?p3 s"
    using assms(4,5) d3 d2 b2 b1 k
    by (simp add: walkFn_def collectFn_def excluded_def Let_def)
qed

text \<open>
  C2, as the code has it. In a vendor tree of ASCII names that holds a license file
  \<open>f\<close> at \<^verbatim>\<open>vendor/a/b/f\<close>, whatever else it holds, the License Collector ends
  without error and the mapping has the key \<^verbatim>\<open>licenses-and-notices/a-b-\<close> followed by
  \<open>f\<close> in lower case: the grandparent comes first, then the parent. The three names
  are taken outside the exclusion set, so that nothing is said here about a license
  below an excluded directory.
\<close>

theorem collect_target_name:
  assumes "plainName a" "plainName b" "plainName f"
    and "\<not> excluded a" "\<not> excluded b" "\<not> excluded f"
    and "isLicense (ToLower f)"
    and "asciiNames (Dir ''vendor'' es)"
    and "Dir a as \<in> set es" "Dir b bs \<in> set as" "File f \<in> set bs"
  shows "\<exists>files'. collect files ''vendor'' (Some (Dir ''vendor'' es)) = Inr files'
           \<and> ''licenses-and-notices/'' @ a @ ''-'' @ b @ ''-'' @ ToLower f \<in> fst ` set files'"
proof -
  let ?k = "''licenses-and-notices/'' @ a @ ''-'' @ b @ ''-'' @ ToLower f"
  let ?fn = "walkFn ''vendor'' collectFn"
  note key = license_file_key [OF assms(1-3) assms(6,7)]
  let ?p1 = "''vendor/'' @ a"
  let ?p2 = "''vendor/'' @ a @ ''/'' @ b"
  have f: "?k \<in> fst ` set (fst (walk ?fn (filepath_Join [?p2, infoName (File f)]) (File f) s))" for s
    by (simp only: infoName.simps key(3) walk.simps key(4) dom_update) simp
  have b: "?k \<in> fst ` set (fst (walk ?fn ?p2 (Dir b bs) s))" for s
    by (simp only: walk_Dir) (rule walkEntries_reaches [OF assms(11) f])
  have b': "?k \<in> fst ` set (fst (walk ?fn (filepath_Join [?p1, infoName (Dir b bs)]) (Dir b bs) s))" for s
    by (simp only: infoName.simps key(2) b)
  have a: "?k \<in> fst ` set (fst (walk ?fn ?p1 (Dir a as) s))" for s
    by (simp only: walk_Dir) (rule walkEntries_reaches [OF assms(10) b'])
  have a': "?k \<in> fst ` set (fst (walk ?fn (filepath_Join [''vendor'', infoName (Dir a as)]) (Dir a as) s))" for s
    by (simp only: infoName.simps key(1) a)
  have "?k \<in> fst ` set (fst (walk ?fn ''vendor'' (Dir ''vendor'' es) files))"
    by (simp only: walk_Dir) (rule walkEntries_reaches [OF assms(9) a'])
  then show ?thesis
    by (simp add: collect_walk)
qed

theorem collect_target_name_witness:
  "plainName ''x'' \<and> plainName ''y'' \<and> plainName ''NOTICE.txt''
   \<and> \<not> excluded ''x'' \<and> \<not> excluded ''y'' \<and> \<not> excluded ''NOTICE.txt''
   \<and> isLicense (ToLower ''NOTICE.txt'')
   \<and> asciiNames (Dir ''vendor''
         [Dir ''x'' [File ''README.md'',
                     Dir ''y'' [File ''LICENSE'', File ''NOTICE.txt'', File ''main.go'']]])
   \<and> (\<exists>files'. collect [] ''vendor''
         (Some (Dir ''vendor''
            [Dir ''x'' [File ''README.md'',
                        Dir ''y'' [File ''LICENSE'', File ''NOTICE.txt'', File ''main.go'']]])) =
           Inr files'
         \<and> ''licenses-and-notices/x-y-notice.txt'' \<in> fst ` set files')"
proof -
  let ?bs = "[File ''LICENSE'', File ''NOTICE.txt'', File ''main.go'']"
  let ?as = "[File ''README.md'', Dir ''y'' ?bs]"
  let ?es = "[Dir ''x'' ?as]"
  have p: "plainName ''x''" "plainName ''y''" "plainName ''NOTICE.txt''"
    by (simp_all add: plainName_def)
  have e: "\<not> excluded ''x''" "\<not> excluded ''y''" "\<not> excluded ''NOTICE.txt''"
    by (simp_all add: excluded_def noWalk_def filepath_Ext_def)
  have l: "ToLower ''NOTICE.txt'' = ''notice.txt''"
    by (simp add: ToLower_def lowerChar_def)
  have i: "isLicense (ToLower ''NOTICE.txt'')"
    by (simp add: l) (simp add: isLicense_def filepath_Ext_def TrimSuffix_def HasSuffix_def
        ToLower_def lowerChar_def)
  have t: "asciiNames (Dir ''vendor'' ?es)"
    by (simp add: isASCII_def)
  have m: "Dir ''x'' ?as \<in> set ?es" "Dir ''y'' ?bs \<in> set ?as" "File ''NOTICE.txt'' \<in> set ?bs"
    by simp_all
  note r = collect_target_name [OF p e i t m, of "[]"]
  from r have "\<exists>files'. collect [] ''vendor'' (Some (Dir ''vendor'' ?es)) = Inr files'
         \<and> ''licenses-and-notices/x-y-notice.txt'' \<in> fst ` set files'"
    by (simp add: l)
  with p e i t show ?thesis by (simp only: simp_thms)
qed

text \<open>
  The key is what the claim is about. The path kept under it is the one of the file
  walked last among those with the same target name: here two files of one directory
  whose names differ in case only.
\<close>

lemma collect_same_target_last_wins:
  "collect [] ''vendor''
     (Some (Dir ''vendor'' [Dir ''a'' [Dir ''b'' [File ''LICENSE'', File ''license'']]])) =
     Inr [(''licenses-and-notices/a-b-license'', ''vendor/a/b/license'')]"
  by (simp add: license_eval)

subsection \<open>The Archive Builder\<close>

lemma writeFiles_names:
  "writeFiles env fs es = Inr es' \<Longrightarrow> map fst es' = map fst es @ map fst fs"
  by (induction fs arbitrary: es) (auto split: option.splits)

text \<open>
  A task that ends without error has written one archive: the readme, the binary
  under the project name with the extension of the artifact, then one entry for every
  key of the license map.
\<close>

lemma packTask_archive:
  assumes "packTask env g rdme files b = Inr z"
  shows "zpath z = filepath_Join [distDir, TrimSuffix b (filepath_Ext b) @ ''.zip'']"
    and "map fst (entries z) = packReadmeName # (projectName g @ filepath_Ext b) # map fst files"
  using assms
  by (auto simp: packTask_def Let_def split: option.splits sum.splits dest!: writeFiles_names)

lemma packTask_entries_length:
  "packTask env g rdme files b = Inr z \<Longrightarrow> length (entries z) = 2 + length files"
  using packTask_archive(2) [of env g rdme files b z]
  by (metis add_2_eq_Suc length_Cons length_map)

lemma packTasks_archives:
  "packTasks env g rdme files bs = Inr zs \<Longrightarrow>
   length zs = length bs \<and> (\<forall>z \<in> set zs. length (entries z) = 2 + length files)"
proof (induction bs arbitrary: zs)
  case Nil
  then show ?case by simp
next
  case (Cons b bs)
  from Cons.prems obtain z zs' where
    z: "packTask env g rdme files b = Inr z" and zs': "packTasks env g rdme files bs = Inr zs'"
    and zs: "zs = z # zs'"
    by (auto split: sum.splits)
  from packTask_entries_length [OF z] Cons.IH [OF zs'] zs show ?case by simp
qed

lemma writeFiles_okEnv:
  "\<exists>es'. writeFiles (okEnv bins vt root) fs es = Inr es'"
  by (induction fs arbitrary: es) (auto simp: okEnv_def)

lemma packTask_okEnv:
  "\<exists>z. packTask (okEnv bins vt root) g rdme files b = Inr z"
proof -
  let ?es = "[(packReadmeName, Text rdme),
              (projectName g @ filepath_Ext b, FromFile (filepath_Join [binDir, b]))]"
  obtain es' where "writeFiles (okEnv bins vt root) files ?es = Inr es'"
    using writeFiles_okEnv by blast
  then show ?thesis
    by (simp add: packTask_def Let_def okEnv_def)
qed

lemma packTasks_okEnv:
  "\<exists>zs. packTasks (okEnv bins vt root) g rdme files bs = Inr zs"
proof (induction bs)
  case Nil
  show ?case by simp
next
  case (Cons b bs)
  obtain z where "packTask (okEnv bins vt root) g rdme files b = Inr z"
    using packTask_okEnv by blast
  with Cons show ?case by auto
qed

text \<open>
  The zip path of a task, for an artifact name without separator: the distribution
  directory, the name without its extension, and \<^verbatim>\<open>.zip\<close>. So the paths of the tasks
  are pairwise distinct exactly when the names without extension are.
\<close>

lemma TrimSuffix_set: "set (TrimSuffix s suf) \<subseteq> set s"
  by (auto simp: TrimSuffix_def dest: in_set_takeD)

lemma plainName_zip:
  assumes "CHR ''/'' \<notin> set base"
  shows "plainName (base @ ''.zip'')"
proof -
  have len: "length (base @ ''.zip'') > 2"
    by simp
  have "length ''.'' = 1" and "length ''..'' = 2"
    by simp_all
  with len have "base @ ''.zip'' \<noteq> ''.''" "base @ ''.zip'' \<noteq> ''..''"
    by (metis less_numeral_extra(4) one_less_numeral_iff semiring_norm(76) not_less_iff_gr_or_eq)+
  with assms show ?thesis
    by (simp add: plainName_def)
qed

lemma packTask_zpath:
  assumes "packTask env g rdme files b = Inr z" and "CHR ''/'' \<notin> set b"
  shows "zpath z = ''dist/'' @ TrimSuffix b (filepath_Ext b) @ ''.zip''"
proof -
  have "CHR ''/'' \<notin> set (TrimSuffix b (filepath_Ext b))"
    using assms(2) TrimSuffix_set by fastforce
  then have "plainName (TrimSuffix b (filepath_Ext b) @ ''.zip'')"
    by (rule plainName_zip)
  then have "filepath_Join [distDir, TrimSuffix b (filepath_Ext b) @ ''.zip''] =
             ''dist/'' @ TrimSuffix b (filepath_Ext b) @ ''.zip''"
    using filepath_Join_entry [of "[distDir]" "TrimSuffix b (filepath_Ext b) @ ''.zip''"]
    by (simp add: distDir_def plainName_def)
  with packTask_archive(1) [OF assms(1)] show ?thesis
    by simp
qed

lemma packTasks_zpaths:
  "packTasks env g rdme files bs = Inr zs \<Longrightarrow> \<forall>b \<in> set bs. CHR ''/'' \<notin> set b \<Longrightarrow>
   map zpath zs = map (\<lambda>b. ''dist/'' @ TrimSuffix b (filepath_Ext b) @ ''.zip'') bs"
proof (induction bs arbitrary: zs)
  case Nil
  then show ?case by simp
next
  case (Cons b bs)
  from Cons.prems(1) obtain z zs' where
    z: "packTask env g rdme files b = Inr z" and zs': "packTasks env g rdme files bs = Inr zs'"
    and zs: "zs = z # zs'"
    by (auto split: sum.splits)
  from Cons.prems(2) have b: "CHR ''/'' \<notin> set b" and bs: "\<forall>b \<in> set bs. CHR ''/'' \<notin> set b"
    by simp_all
  have "zpath z = ''dist/'' @ TrimSuffix b (filepath_Ext b) @ ''.zip''"
    using z b by (rule packTask_zpath)
  moreover have "map zpath zs' = map (\<lambda>b. ''dist/'' @ TrimSuffix b (filepath_Ext b) @ ''.zip'') bs"
    using zs' bs by (rule Cons.IH)
  ultimately show ?case
    unfolding zs by (simp only: list.map)
qed

lemma packTasks_distinct_zpaths:
  assumes "packTasks env g rdme files bs = Inr zs" and "\<forall>b \<in> set bs. CHR ''/'' \<notin> set b"
  shows "distinct (map zpath zs) \<longleftrightarrow> distinct (map (\<lambda>b. TrimSuffix b (filepath_Ext b)) bs)"
proof -
  let ?base = "\<lambda>b. TrimSuffix b (filepath_Ext b)"
  let ?zip = "\<lambda>s. ''dist/'' @ s @ ''.zip''"
  have "inj ?zip"
    by (rule injI) simp
  then have i: "inj_on ?zip (set (map ?base bs))"
    by (rule inj_on_subset) simp
  have "map zpath zs = map ?zip (map ?base bs)"
    using packTasks_zpaths [OF assms] by (simp only: map_map comp_def)
  then show ?thesis
    using i by (simp only: distinct_map) simp
qed

lemmas pack_eval =
  packTask_def okEnv_def startGlobals_def filepath_Ext_def filepath_Join_def
  filepath_Clean_def Split_def TrimSuffix_def HasSuffix_def distDir_def binDir_def
  packReadmeName_def Let_def

text \<open>
  C9 fails on the code: the extension of an artifact is everything from the last dot
  of its name, so two artifacts of a project whose directory name has a dot lose the
  platform with the extension, and both tasks create the same zip file.
\<close>

theorem packTasks_same_zip_path:
  "packTasks (okEnv [] None []) ((startGlobals False True False)\<lparr>projectName := ''app.io''\<rparr>)
      ''R'' [] [''app.io-linux-386'', ''app.io-linux-amd64''] =
     Inr [\<lparr>zpath = ''dist/app.zip'',
           entries = [(''readme.txt'', Text ''R''),
                      (''app.io.io-linux-386'', FromFile ''bin/app.io-linux-386'')]\<rparr>,
          \<lparr>zpath = ''dist/app.zip'',
           entries = [(''readme.txt'', Text ''R''),
                      (''app.io.io-linux-amd64'', FromFile ''bin/app.io-linux-amd64'')]\<rparr>]"
  by (simp add: pack_eval)
text \<open>
  C6 fails on the code, by the same defect as C9: for the two artifacts of a project in
  a directory named \<^verbatim>\<open>yaml.v2\<close> the run ends without error, and both archives are
  written to \<^verbatim>\<open>dist/yaml.zip\<close>, so two artifacts leave one zip file. Each archive has
  the readme, the binary and the one license of the map.
\<close>

theorem pack_two_artifacts_one_zip:
  "pack (okEnv [''yaml.v2-darwin-amd64'', ''yaml.v2-linux-amd64''] None [''LICENSE''])
      ((startGlobals False True False)
         \<lparr>projectName := ''yaml.v2'', modulePath := ''gopkg.in/yaml.v2''\<rparr>) =
     Inr ([(''licenses-and-notices/yaml.v2-license'', ''LICENSE'')],
          [\<lparr>zpath = ''dist/yaml.zip'',
            entries =
              [(''readme.txt'',
                Text (readme ((startGlobals False True False)
                        \<lparr>projectName := ''yaml.v2'', modulePath := ''gopkg.in/yaml.v2''\<rparr>)
                      ''yaml.v2'')),
               (''yaml.v2.v2-darwin-amd64'', FromFile ''bin/yaml.v2-darwin-amd64''),
               (''licenses-and-notices/yaml.v2-license'', FromFile ''LICENSE'')]\<rparr>,
           \<lparr>zpath = ''dist/yaml.zip'',
            entries =
              [(''readme.txt'',
                Text (readme ((startGlobals False True False)
                        \<lparr>projectName := ''yaml.v2'', modulePath := ''gopkg.in/yaml.v2''\<rparr>)
                      ''yaml.v2'')),
               (''yaml.v2.v2-linux-amd64'', FromFile ''bin/yaml.v2-linux-amd64''),
               (''licenses-and-notices/yaml.v2-license'', FromFile ''LICENSE'')]\<rparr>])"
  by (simp add: pack_def mkdirOrTruncate_def runGox_def collect_def collectProjectLicense_def
      isLicense_def ToLower_def lowerChar_def packLicDir_def pack_eval)

end
